theory Spec2Isabelle
  imports Main "HOL-Library.Multiset"
begin

section \<open>Data model\<close>

text \<open>
  The rows and views the three source files read and write. A \<open>Wallet\<close> is the
  Prisma row returned by \<open>prisma.wallet.findFirst\<close>; a \<open>TransactionWithSignatures\<close>
  is the view the transaction list receives from the fetch-transactions route
  (the transaction with its signatures, its wallet and the derived
  \<open>pendingSigners\<close>). Addresses, hashes and signatures are JavaScript strings;
  \<open>txHash\<close> is nullable. The source's field \<open>id\<close> is written \<open>wallet_id\<close> and
  \<open>transaction_id\<close>.
\<close>

type_synonym bytes = "nat list"

record Wallet =
  wallet_id :: int
  address :: string
  signers :: "string list"
  isDeployed :: bool

record TransactionSignature =
  signerAddress :: string
  signature :: string

record IUserOperation =
  sender :: string
  nonce :: int
  initCode :: bytes
  callData :: string
  maxFeePerGas :: int
  maxPriorityFeePerGas :: int

record TransactionWithSignatures =
  transaction_id :: int
  txHash :: "string option"
  userOp :: IUserOperation
  signatures :: "TransactionSignature list"
  wallet :: Wallet
  pendingSigners :: "string list"

section \<open>Ordering the signatures (\<open>sendTransaction\<close>, the two nested \<open>forEach\<close>)\<close>

text \<open>
  The inner loop visits every signature and pushes its bytes when its
  \<open>signerAddress\<close> is strictly equal (\<open>===\<close>) to the signer at hand; the outer loop
  visits the signers in the wallet's stored order. The accumulator is the array
  \<open>orderedSignatures\<close>.
\<close>

fun pushMatching :: "string \<Rightarrow> TransactionSignature list \<Rightarrow> string list \<Rightarrow> string list" where
  "pushMatching signer [] acc = acc"
| "pushMatching signer (s # rest) acc =
     pushMatching signer rest (if signerAddress s = signer then acc @ [signature s] else acc)"

fun orderLoop :: "string list \<Rightarrow> TransactionSignature list \<Rightarrow> string list \<Rightarrow> string list" where
  "orderLoop [] sigs acc = acc"
| "orderLoop (signer # rest) sigs acc = orderLoop rest sigs (pushMatching signer sigs acc)"

definition orderSignatures :: "TransactionWithSignatures \<Rightarrow> string list" where
  "orderSignatures t = orderLoop (signers (wallet t)) (signatures t) []"

text \<open>The signatures one signer recorded, in recording order.\<close>

definition signedBy :: "TransactionSignature list \<Rightarrow> string \<Rightarrow> string list" where
  "signedBy sigs signer = map signature (filter (\<lambda>s. signerAddress s = signer) sigs)"

section \<open>Errors, collaborators and the database\<close>

text \<open>
  Every \<open>throw\<close> of the source and every rejected \<open>await\<close> is a value of \<open>error\<close>,
  tagged by the place that raises it; \<open>message\<close> is the text \<open>window.alert\<close> shows.
\<close>

datatype error =
    ClientInitError string
  | IncompleteQuorum
  | BuilderError string
  | SubmissionError string
  | FetchError string
  | MissingAddress
  | InvalidAddress
  | BadRequestBody
  | RecordNotFound
  | QueryError string

fun message :: "error \<Rightarrow> string" where
  "message (ClientInitError m) = m"
| "message IncompleteQuorum = ''Fewer signatures received than expected''"
| "message (BuilderError m) = m"
| "message (SubmissionError m) = m"
| "message (FetchError m) = m"
| "message MissingAddress = ''Missing or invalid address''"
| "message InvalidAddress = ''Invalid Ethereum address''"
| "message BadRequestBody = ''Unexpected end of JSON input''"
| "message RecordNotFound = ''Record to update not found.''"
| "message (QueryError m) = m"

text \<open>
  The columns of the \<open>Transaction\<close> table that the update handler writes, and the
  database: the \<open>Wallet\<close> and \<open>Transaction\<close> tables as lists of rows.
\<close>

record TransactionRow =
  row_id :: int
  row_txHash :: "string option"

record db =
  wallets :: "Wallet list"
  transactions :: "TransactionRow list"

text \<open>
  The arguments \<open>getUserOperationBuilder\<close> receives, with the two gas settings
  applied to the builder afterwards: what is handed to \<open>client.sendUserOperation\<close>.
\<close>

record UserOperationBuilder =
  b_sender :: string
  b_nonce :: int
  b_initCode :: bytes
  b_callData :: string
  b_signatures :: "string list"
  b_maxFeePerGas :: int
  b_maxPriorityFeePerGas :: int

text \<open>
  The external collaborators of one run of \<open>sendTransaction\<close>, as what each of them
  answers. \<open>Some m\<close> or \<open>Inl m\<close> is a rejection with message \<open>m\<close>.
  \<open>wait\<close> resolves to an event (\<open>Inr True\<close>) or to \<open>null\<close> (\<open>Inr False\<close>);
  \<open>getTransactionReceipt\<close> resolves to the receipt's \<open>transactionHash\<close>, \<open>None\<close> when
  the receipt is nullish. A \<open>fetch\<close> that rejects may have failed before the request
  reached the handler or after the handler ran; the caller cannot tell the two
  apart.
\<close>

datatype fetch_outcome = Resolved | RejectedUnsent string | RejectedSent string

record env =
  clientInit :: "string option"
  getUserOperationBuilder :: "string \<Rightarrow> int \<Rightarrow> bytes \<Rightarrow> string \<Rightarrow> string list \<Rightarrow> string option"
  sendUserOperation :: "UserOperationBuilder \<Rightarrow> string option"
  wait :: "string + bool"
  getTransactionReceipt :: "string + string option"
  fetch :: fetch_outcome

section \<open>\<open>POST /api/update-wallet-deployed\<close>\<close>

record body =
  walletId :: int
  transactionId :: int
  body_txHash :: "string option"

datatype json =
    JsonWallet "Wallet option"
  | JsonTransaction TransactionRow
  | JsonError error

text \<open>
  \<open>prisma.wallet.update\<close> with \<open>data: { isDeployed: true }\<close>, and
  \<open>prisma.transaction.update\<close> with \<open>data: { txHash }\<close>. Prisma's \<open>update\<close> throws when
  no row has the given id, and leaves a column alone when its value is \<open>undefined\<close>
  (\<open>None\<close> here: \<open>JSON.stringify\<close> drops an undefined \<open>txHash\<close> from the request).
\<close>

definition prisma_wallet_update :: "db \<Rightarrow> int \<Rightarrow> error + db" where
  "prisma_wallet_update d i =
     (if i \<in> set (map wallet_id (wallets d))
      then Inr (d\<lparr>wallets := map (\<lambda>w. if wallet_id w = i then w\<lparr>isDeployed := True\<rparr> else w) (wallets d)\<rparr>)
      else Inl RecordNotFound)"

definition prisma_transaction_update :: "db \<Rightarrow> int \<Rightarrow> string option \<Rightarrow> error + (TransactionRow \<times> db)" where
  "prisma_transaction_update d i h =
     (case find (\<lambda>r. row_id r = i) (transactions d) of
        None \<Rightarrow> Inl RecordNotFound
      | Some r \<Rightarrow>
          (let r' = (case h of None \<Rightarrow> r | Some v \<Rightarrow> r\<lparr>row_txHash := Some v\<rparr>)
           in Inr (r', d\<lparr>transactions := map (\<lambda>x. if row_id x = i then r' else x) (transactions d)\<rparr>)))"

text \<open>
  The handler: the request body is \<open>None\<close> when \<open>req.json()\<close> rejects. The wallet is
  updated first, the transaction second; the \<open>catch\<close> answers with \<open>{ error }\<close> and
  undoes nothing.
\<close>

definition POST :: "db \<Rightarrow> body option \<Rightarrow> json \<times> db" where
  "POST d req =
     (case req of
        None \<Rightarrow> (JsonError BadRequestBody, d)
      | Some b \<Rightarrow>
          (case prisma_wallet_update d (walletId b) of
             Inl e \<Rightarrow> (JsonError e, d)
           | Inr d1 \<Rightarrow>
               (case prisma_transaction_update d1 (transactionId b) (body_txHash b) of
                  Inl e \<Rightarrow> (JsonError e, d1)
                | Inr (res, d2) \<Rightarrow> (JsonTransaction res, d2))))"

section \<open>\<open>sendTransaction\<close>\<close>

text \<open>
  One run: the error the \<open>catch\<close> block alerted (\<open>None\<close> when the run reached
  "Transaction sent successfully"), the database afterwards, and the calls made to
  the bundler and to the update endpoint, in order, the latter with the response
  the run never reads.
\<close>

datatype event =
    SendUserOperation UserOperationBuilder
  | UpdateWalletDeployed body json

record run =
  thrown :: "error option"
  store :: db
  calls :: "event list"

definition failed :: "error \<Rightarrow> db \<Rightarrow> event list \<Rightarrow> run" where
  "failed e d cs = \<lparr>thrown = Some e, store = d, calls = cs\<rparr>"

definition sendTransaction :: "env \<Rightarrow> db \<Rightarrow> TransactionWithSignatures \<Rightarrow> run" where
  "sendTransaction ev d t =
     (case clientInit ev of
        Some m \<Rightarrow> failed (ClientInitError m) d []
      | None \<Rightarrow>
          (let orderedSignatures = orderSignatures t in
           if length orderedSignatures \<noteq> length (signers (wallet t))
           then failed IncompleteQuorum d []
           else
             (let initCode' = (if isDeployed (wallet t) then [] else initCode (userOp t)) in
              case getUserOperationBuilder ev (sender (userOp t)) (nonce (userOp t)) initCode'
                     (callData (userOp t)) orderedSignatures of
                Some m \<Rightarrow> failed (BuilderError m) d []
              | None \<Rightarrow>
                  (let builder = \<lparr>b_sender = sender (userOp t), b_nonce = nonce (userOp t),
                                  b_initCode = initCode', b_callData = callData (userOp t),
                                  b_signatures = orderedSignatures,
                                  b_maxFeePerGas = maxFeePerGas (userOp t),
                                  b_maxPriorityFeePerGas = maxPriorityFeePerGas (userOp t)\<rparr> in
                   case sendUserOperation ev builder of
                     Some m \<Rightarrow> failed (SubmissionError m) d [SendUserOperation builder]
                   | None \<Rightarrow>
                       (case wait ev of
                          Inl m \<Rightarrow> failed (SubmissionError m) d [SendUserOperation builder]
                        | Inr finalUserOpResult \<Rightarrow>
                            (case (if finalUserOpResult then getTransactionReceipt ev else Inr None) of
                               Inl m \<Rightarrow> failed (SubmissionError m) d [SendUserOperation builder]
                             | Inr h \<Rightarrow>
                                 (let b = \<lparr>walletId = wallet_id (wallet t),
                                            transactionId = transaction_id t,
                                            body_txHash = h\<rparr> in
                                  case fetch ev of
                                    RejectedUnsent m \<Rightarrow>
                                      failed (FetchError m) d [SendUserOperation builder]
                                  | RejectedSent m \<Rightarrow>
                                      failed (FetchError m) (snd (POST d (Some b)))
                                        [SendUserOperation builder,
                                         UpdateWalletDeployed b (fst (POST d (Some b)))]
                                  | Resolved \<Rightarrow>
                                      \<lparr>thrown = None, store = snd (POST d (Some b)),
                                       calls = [SendUserOperation builder,
                                                UpdateWalletDeployed b (fst (POST d (Some b)))]\<rparr>)))))))"

section \<open>The action a transaction card offers (\<open>TransactionsList\<close>, the nested conditional)\<close>

datatype action = ViewOnEtherscan | ExecuteTxn | SignTxn | NoActionReqd

text \<open>JavaScript truthiness of a nullable string: \<open>null\<close> and \<open>""\<close> are falsy.\<close>

definition truthy :: "string option \<Rightarrow> bool" where
  "truthy h = (case h of None \<Rightarrow> False | Some s \<Rightarrow> s \<noteq> [])"

text \<open>\<open>String.prototype.toLowerCase\<close> on the ASCII letters an address is written with.\<close>

definition lowerChar :: "char \<Rightarrow> char" where
  "lowerChar c =
     (case map_of (zip ''ABCDEFGHIJKLMNOPQRSTUVWXYZ'' ''abcdefghijklmnopqrstuvwxyz'') c of
        Some l \<Rightarrow> l
      | None \<Rightarrow> c)"

definition toLowerCase :: "string \<Rightarrow> string" where
  "toLowerCase s = map lowerChar s"

definition transactionAction :: "string \<Rightarrow> TransactionWithSignatures \<Rightarrow> action" where
  "transactionAction addr t =
     (if truthy (txHash t) then ViewOnEtherscan
      else if length (pendingSigners t) = 0 then ExecuteTxn
      else if toLowerCase addr \<in> set (pendingSigners t) then SignTxn
      else NoActionReqd)"

text \<open>
  Modelled from the spec: the fetch-transactions route, which derives
  \<open>pendingSigners\<close> for the view, is not among the source files. The spec has the
  pending-signer set as the "signer set minus signed addresses".
\<close>

definition derivePendingSigners :: "string list \<Rightarrow> TransactionSignature list \<Rightarrow> string list" where
  "derivePendingSigners ss sigs = filter (\<lambda>s. s \<notin> set (map signerAddress sigs)) ss"

section \<open>\<open>GET /api/fetch-wallets\<close>\<close>

text \<open>
  \<open>prisma.wallet.findFirst\<close> with \<open>where: { address }\<close> on the table, and the
  handler. \<open>isAddress\<close> is the ethers library's predicate; \<open>query\<close> is the database
  call, which may reject. The argument is \<open>searchParams.get("walletAddress")\<close>:
  \<open>None\<close> when the parameter is missing.
\<close>

definition prisma_wallet_findFirst :: "db \<Rightarrow> string \<Rightarrow> Wallet option" where
  "prisma_wallet_findFirst d a = find (\<lambda>w. address w = a) (wallets d)"

definition GET_try :: "(string \<Rightarrow> bool) \<Rightarrow> (string \<Rightarrow> error + Wallet option) \<Rightarrow> string option \<Rightarrow> error + json" where
  "GET_try isAddress query walletAddress =
     (case walletAddress of
        None \<Rightarrow> Inl MissingAddress
      | Some a \<Rightarrow>
          if a = [] then Inl MissingAddress
          else if \<not> isAddress a then Inl InvalidAddress
          else (case query a of Inl e \<Rightarrow> Inl e | Inr w \<Rightarrow> Inr (JsonWallet w)))"

definition GET :: "(string \<Rightarrow> bool) \<Rightarrow> (string \<Rightarrow> error + Wallet option) \<Rightarrow> string option \<Rightarrow> json" where
  "GET isAddress query walletAddress =
     (case GET_try isAddress query walletAddress of Inl e \<Rightarrow> JsonError e | Inr r \<Rightarrow> r)"

section \<open>Example data\<close>

text \<open>
  A wallet with two signers and a proposal on which the second signer signed
  first; a bundler and a network that answer; a database holding both rows.
\<close>

definition exampleWallet :: Wallet where
  "exampleWallet = \<lparr>wallet_id = 1, address = ''0xf00d'', signers = [''0xaa'', ''0xbb''], isDeployed = False\<rparr>"

definition exampleOp :: IUserOperation where
  "exampleOp = \<lparr>sender = ''0xf00d'', nonce = 0, initCode = [96, 128], callData = ''0xb61d27f6'',
                 maxFeePerGas = 30, maxPriorityFeePerGas = 2\<rparr>"

definition exampleTx :: TransactionWithSignatures where
  "exampleTx = \<lparr>transaction_id = 7, txHash = None, userOp = exampleOp,
                 signatures = [\<lparr>signerAddress = ''0xbb'', signature = ''sigB''\<rparr>,
                               \<lparr>signerAddress = ''0xaa'', signature = ''sigA''\<rparr>],
                 wallet = exampleWallet, pendingSigners = []\<rparr>"

definition exampleDb :: db where
  "exampleDb = \<lparr>wallets = [exampleWallet], transactions = [\<lparr>row_id = 7, row_txHash = None\<rparr>]\<rparr>"

definition exampleEnv :: env where
  "exampleEnv = \<lparr>clientInit = None, getUserOperationBuilder = (\<lambda>_ _ _ _ _. None),
                  sendUserOperation = (\<lambda>_. None), wait = Inr True,
                  getTransactionReceipt = Inr (Some ''0xfeed''), fetch = Resolved\<rparr>"

text \<open>
  The same proposal when the first signer signed twice and the second never, as a
  view that arrives with no pending signer.
\<close>

definition doubleSignedTx :: TransactionWithSignatures where
  "doubleSignedTx = exampleTx\<lparr>signatures := [\<lparr>signerAddress = ''0xaa'', signature = ''sigA1''\<rparr>,
                                              \<lparr>signerAddress = ''0xaa'', signature = ''sigA2''\<rparr>]\<rparr>"

text \<open>A wallet that lists one signer twice, with that signer's single signature.\<close>

definition duplicateSignerTx :: TransactionWithSignatures where
  "duplicateSignerTx = exampleTx\<lparr>signatures := [\<lparr>signerAddress = ''0xaa'', signature = ''sigA''\<rparr>],
                                 wallet := exampleWallet\<lparr>signers := [''0xaa'', ''0xaa'']\<rparr>\<rparr>"

text \<open>The example proposal before the first signer signed, and after it was submitted.\<close>

definition halfSignedTx :: TransactionWithSignatures where
  "halfSignedTx = exampleTx\<lparr>signatures := [\<lparr>signerAddress = ''0xbb'', signature = ''sigB''\<rparr>],
                            pendingSigners := [''0xaa'']\<rparr>"

definition submittedTx :: TransactionWithSignatures where
  "submittedTx = exampleTx\<lparr>txHash := Some ''0xfeed''\<rparr>"

text \<open>The example proposal when the first signer signed twice and the second once.\<close>

definition overSignedTx :: TransactionWithSignatures where
  "overSignedTx = exampleTx\<lparr>signatures := [\<lparr>signerAddress = ''0xaa'', signature = ''sigA1''\<rparr>,
                                            \<lparr>signerAddress = ''0xaa'', signature = ''sigA2''\<rparr>,
                                            \<lparr>signerAddress = ''0xbb'', signature = ''sigB''\<rparr>]\<rparr>"

text \<open>
  A wallet whose first signer is stored as \<open>0xab\<close>: a proposal on which that signer's
  signature was recorded under \<open>0xAB\<close>, and a one-signer proposal on which the
  signer signed under both spellings.
\<close>

definition mixedCaseTx :: TransactionWithSignatures where
  "mixedCaseTx = exampleTx\<lparr>signatures := [\<lparr>signerAddress = ''0xAB'', signature = ''sigA''\<rparr>,
                                            \<lparr>signerAddress = ''0xbb'', signature = ''sigB''\<rparr>],
                            wallet := exampleWallet\<lparr>signers := [''0xab'', ''0xbb'']\<rparr>\<rparr>"

definition bothSpellingsTx :: TransactionWithSignatures where
  "bothSpellingsTx = exampleTx\<lparr>signatures := [\<lparr>signerAddress = ''0xAB'', signature = ''sig1''\<rparr>,
                                                \<lparr>signerAddress = ''0xab'', signature = ''sig2''\<rparr>],
                                wallet := exampleWallet\<lparr>signers := [''0xab'']\<rparr>\<rparr>"

text \<open>The example proposal under an id that no stored row has.\<close>

definition orphanTx :: TransactionWithSignatures where
  "orphanTx = exampleTx\<lparr>transaction_id := 8\<rparr>"

section \<open>The loops in closed form\<close>

lemma pushMatching_append: "pushMatching signer sigs acc = acc @ signedBy sigs signer"
  by (induction sigs arbitrary: acc) (simp_all add: signedBy_def)

lemma orderLoop_concat: "orderLoop ss sigs acc = acc @ concat (map (signedBy sigs) ss)"
  by (induction ss arbitrary: acc) (simp_all add: pushMatching_append)

lemma orderSignatures_concat:
  "orderSignatures t = concat (map (signedBy (signatures t)) (signers (wallet t)))"
  by (simp add: orderSignatures_def orderLoop_concat)

lemma length_signedBy_card:
  "length (signedBy sigs s) = card {j. j < length sigs \<and> s = signerAddress (sigs ! j)}"
proof -
  have "{j. j < length sigs \<and> signerAddress (sigs ! j) = s}
      = {j. j < length sigs \<and> s = signerAddress (sigs ! j)}"
    by auto
  then show ?thesis
    by (simp add: signedBy_def length_filter_conv_card)
qed

lemma matching_pairs_Sigma:
  "{(i, j). i < length ss \<and> j < length sigs \<and> ss ! i = signerAddress (sigs ! j)}
     = (SIGMA i : {..<length ss}. {j. j < length sigs \<and> ss ! i = signerAddress (sigs ! j)})"
  by auto

lemma length_concat_signedBy:
  "length (concat (map (signedBy sigs) ss))
     = card {(i, j). i < length ss \<and> j < length sigs \<and> ss ! i = signerAddress (sigs ! j)}"
proof -
  have "length (concat (map (signedBy sigs) ss)) = (\<Sum>s\<leftarrow>ss. length (signedBy sigs s))"
    by (simp add: length_concat comp_def)
  also have "\<dots> = (\<Sum>i<length ss. length (signedBy sigs (ss ! i)))"
    by (simp add: sum_list_sum_nth atLeast0LessThan)
  also have "\<dots> = (\<Sum>i<length ss. card {j. j < length sigs \<and> ss ! i = signerAddress (sigs ! j)})"
    by (simp add: length_signedBy_card)
  also have "\<dots> = card (SIGMA i : {..<length ss}.
                        {j. j < length sigs \<and> ss ! i = signerAddress (sigs ! j)})"
    by simp
  finally show ?thesis
    by (simp only: matching_pairs_Sigma)
qed

section \<open>Counting what each signer contributes\<close>

lemma length_filter_distinct_le:
  "distinct (map f xs) \<Longrightarrow> length (filter (\<lambda>x. f x = a) xs) \<le> Suc 0"
proof (induction xs)
  case Nil
  then show ?case by simp
next
  case (Cons x xs)
  show ?case
  proof (cases "f x = a")
    case True
    with Cons.prems have "a \<notin> f ` set xs" by auto
    then have "filter (\<lambda>y. f y = a) xs = []"
      by (auto simp: filter_empty_conv)
    with True show ?thesis by simp
  next
    case False
    with Cons show ?thesis by simp
  qed
qed

lemma length_signedBy_le:
  "distinct (map signerAddress sigs) \<Longrightarrow> length (signedBy sigs s) \<le> Suc 0"
  by (simp add: signedBy_def length_filter_distinct_le)

lemma length_signedBy_pos:
  "s \<in> set (map signerAddress sigs) \<Longrightarrow> 0 < length (signedBy sigs s)"
  by (auto simp: signedBy_def filter_empty_conv)

lemma length_concat_le:
  "(\<forall>s\<in>set ss. length (f s) \<le> Suc 0) \<Longrightarrow> length (concat (map f ss)) \<le> length ss"
  by (induction ss) auto

lemma length_concat_full:
  "(\<forall>s\<in>set ss. length (f s) \<le> Suc 0) \<Longrightarrow> length (concat (map f ss)) = length ss
     \<Longrightarrow> \<forall>s\<in>set ss. length (f s) = Suc 0"
proof (induction ss)
  case Nil
  then show ?case by simp
next
  case (Cons a ss)
  have le: "length (concat (map f ss)) \<le> length ss"
    using Cons.prems(1) by (simp add: length_concat_le)
  have a: "length (f a) \<le> Suc 0" using Cons.prems(1) by simp
  have sum: "length (f a) + length (concat (map f ss)) = Suc (length ss)"
    using Cons.prems(2) by simp
  from le a sum have "length (f a) = Suc 0" and "length (concat (map f ss)) = length ss"
    by arith+
  with Cons.IH Cons.prems(1) show ?case by simp
qed

lemma length_concat_missing:
  "(\<forall>s\<in>set ss. length (f s) \<le> Suc 0) \<Longrightarrow> a \<in> set ss \<Longrightarrow> f a = []
     \<Longrightarrow> length (concat (map f ss)) < length ss"
  using length_concat_full [of ss f] length_concat_le [of ss f]
  by (metis le_neq_implies_less list.size(3) nat.simps(3))

lemma concat_singletons:
  "(\<forall>s\<in>set ss. length (f s) = Suc 0) \<Longrightarrow> concat (map f ss) = map (\<lambda>s. hd (f s)) ss"
proof (induction ss)
  case Nil
  then show ?case by simp
next
  case (Cons a ss)
  then have "length (f a) = Suc 0" by simp
  then have "f a = [hd (f a)]"
    by (cases "f a") simp_all
  with Cons show ?case by simp
qed

lemma signedBy_single:
  "length (signedBy sigs s) = Suc 0 \<Longrightarrow>
     \<exists>g. filter (\<lambda>h. signerAddress h = s) sigs = [g] \<and> hd (signedBy sigs s) = signature g"
proof -
  assume "length (signedBy sigs s) = Suc 0"
  then have "length (filter (\<lambda>h. signerAddress h = s) sigs) = Suc 0"
    by (simp add: signedBy_def)
  then obtain g where "filter (\<lambda>h. signerAddress h = s) sigs = [g]"
    by (cases "filter (\<lambda>h. signerAddress h = s) sigs") auto
  then show ?thesis by (auto simp: signedBy_def)
qed

lemma signedBy_mset:
  assumes "mset sigs' = mset sigs" and "length (signedBy sigs s) = Suc 0"
  shows "signedBy sigs' s = signedBy sigs s"
proof -
  obtain g where g: "filter (\<lambda>h. signerAddress h = s) sigs = [g]"
    using signedBy_single [OF assms(2)] by blast
  have "mset (filter (\<lambda>h. signerAddress h = s) sigs') = mset (filter (\<lambda>h. signerAddress h = s) sigs)"
    using assms(1) by (metis mset_filter)
  then have "mset (filter (\<lambda>h. signerAddress h = s) sigs') = {#g#}"
    using g by simp
  then have "filter (\<lambda>h. signerAddress h = s) sigs' = [g]"
    by (simp only: mset_single_iff)
  with g show ?thesis by (simp add: signedBy_def)
qed

section \<open>Runs of \<open>sendTransaction\<close>\<close>

lemma sendTransaction_not_quorum:
  "length (orderSignatures t) = length (signers (wallet t))
     \<Longrightarrow> thrown (sendTransaction ev d t) \<noteq> Some IncompleteQuorum"
  by (simp add: sendTransaction_def failed_def Let_def
           split: option.splits sum.splits fetch_outcome.splits)

lemma sendTransaction_quorum:
  "clientInit ev = None \<Longrightarrow> length (orderSignatures t) \<noteq> length (signers (wallet t))
     \<Longrightarrow> sendTransaction ev d t = \<lparr>thrown = Some IncompleteQuorum, store = d, calls = []\<rparr>"
  by (simp add: sendTransaction_def failed_def)

lemma submitted_builder:
  "SendUserOperation b \<in> set (calls (sendTransaction ev d t))
     \<Longrightarrow> b_signatures b = orderSignatures t
         \<and> length (orderSignatures t) = length (signers (wallet t))
         \<and> b_initCode b = (if isDeployed (wallet t) then [] else initCode (userOp t))"
  by (auto simp: sendTransaction_def failed_def Let_def
           split: option.splits sum.splits if_splits fetch_outcome.splits)


lemma every_signer_once:
  assumes "distinct (map signerAddress sigs)"
      and "length (concat (map (signedBy sigs) ss)) = length ss"
  shows "\<forall>s\<in>set ss. length (signedBy sigs s) = Suc 0"
  using assms(2)
  by (intro length_concat_full) (simp_all add: length_signedBy_le [OF assms(1)])

section \<open>Signature order\<close>

lemma length_concat_ge:
  "(\<forall>s\<in>set ss. Suc 0 \<le> length (f s)) \<Longrightarrow> length ss \<le> length (concat (map f ss))"
  by (induction ss) auto

lemma length_concat_exact:
  "(\<forall>s\<in>set ss. Suc 0 \<le> length (f s)) \<Longrightarrow> length (concat (map f ss)) = length ss
     \<Longrightarrow> \<forall>s\<in>set ss. length (f s) = Suc 0"
proof (induction ss)
  case Nil
  then show ?case by simp
next
  case (Cons a ss)
  have ge: "length ss \<le> length (concat (map f ss))"
    using Cons.prems(1) by (simp add: length_concat_ge)
  have a: "Suc 0 \<le> length (f a)" using Cons.prems(1) by simp
  have sum: "length (f a) + length (concat (map f ss)) = Suc (length ss)"
    using Cons.prems(2) by simp
  from ge a sum have "length (f a) = Suc 0" and "length (concat (map f ss)) = length ss"
    by arith+
  with Cons.IH Cons.prems(1) show ?case by simp
qed

lemma each_signer_once:
  assumes "distinct (map signerAddress sigs) \<or> set ss \<subseteq> set (map signerAddress sigs)"
      and "length (concat (map (signedBy sigs) ss)) = length ss"
  shows "\<forall>s\<in>set ss. length (signedBy sigs s) = Suc 0"
  using assms(1)
proof
  assume "distinct (map signerAddress sigs)"
  then show ?thesis using assms(2) by (rule every_signer_once)
next
  assume "set ss \<subseteq> set (map signerAddress sigs)"
  then have "\<forall>s\<in>set ss. Suc 0 \<le> length (signedBy sigs s)"
    using length_signedBy_pos [of _ sigs] by (auto simp: Suc_le_eq)
  then show ?thesis using assms(2) by (rule length_concat_exact)
qed

lemma derivePendingSigners_empty:
  "derivePendingSigners ss sigs = [] \<longleftrightarrow> set ss \<subseteq> set (map signerAddress sigs)"
  by (auto simp: derivePendingSigners_def filter_empty_conv)

lemma ordered_by_signer:
  assumes "distinct (map signerAddress (signatures t))
           \<or> set (signers (wallet t)) \<subseteq> set (map signerAddress (signatures t))"
      and "SendUserOperation b \<in> set (calls (sendTransaction ev d t))"
  shows "b_signatures b = orderSignatures t
       \<and> length (b_signatures b) = length (signers (wallet t))
       \<and> (\<forall>i<length (signers (wallet t)).
            \<exists>g. filter (\<lambda>h. signerAddress h = signers (wallet t) ! i) (signatures t) = [g]
               \<and> b_signatures b ! i = signature g)
       \<and> (\<forall>sigs'. mset sigs' = mset (signatures t)
            \<longrightarrow> orderSignatures (t\<lparr>signatures := sigs'\<rparr>) = b_signatures b)"
proof -
  let ?ss = "signers (wallet t)" and ?sigs = "signatures t"
  have b: "b_signatures b = orderSignatures t"
    and len: "length (orderSignatures t) = length ?ss"
    using submitted_builder [OF assms(2)] by simp_all
  have once: "\<forall>s\<in>set ?ss. length (signedBy ?sigs s) = Suc 0"
    using assms(1) len by (intro each_signer_once) (simp_all add: orderSignatures_concat)
  have ordered: "orderSignatures t = map (\<lambda>s. hd (signedBy ?sigs s)) ?ss"
    using once by (simp add: orderSignatures_concat concat_singletons)
  have nth: "\<exists>g. filter (\<lambda>h. signerAddress h = ?ss ! i) ?sigs = [g]
                 \<and> b_signatures b ! i = signature g" if i: "i < length ?ss" for i
  proof -
    from i once have "length (signedBy ?sigs (?ss ! i)) = Suc 0" by simp
    from signedBy_single [OF this] obtain g
      where "filter (\<lambda>h. signerAddress h = ?ss ! i) ?sigs = [g]"
        and "hd (signedBy ?sigs (?ss ! i)) = signature g" by blast
    with i b ordered show ?thesis by simp
  qed
  have perm: "orderSignatures (t\<lparr>signatures := sigs'\<rparr>) = b_signatures b"
    if m: "mset sigs' = mset ?sigs" for sigs'
  proof -
    have "map (signedBy sigs') ?ss = map (signedBy ?sigs) ?ss"
      using once by (intro map_cong refl signedBy_mset [OF m]) simp
    then have "concat (map (signedBy sigs') ?ss) = concat (map (signedBy ?sigs) ?ss)"
      by (rule arg_cong)
    then show ?thesis
      by (simp add: b orderSignatures_concat)
  qed
  from b len nth perm show ?thesis by simp
qed

text \<open>
  Claim C1. Take a view whose \<open>pendingSigners\<close> is the signer list minus the signed
  addresses and for which the card offers the execute action. When the run hands a
  builder to \<open>client.sendUserOperation\<close>, the signatures in that builder are
  \<open>orderedSignatures\<close>, there is one for every entry of \<open>wallet.signers\<close>, the i-th is
  the one signature recorded under the i-th signer's address, and recording the
  same signatures in any other order gives the same sequence.
\<close>

theorem C1_signatures_in_signer_order:
  assumes "pendingSigners t = derivePendingSigners (signers (wallet t)) (signatures t)"
      and "transactionAction addr t = ExecuteTxn"
      and "SendUserOperation b \<in> set (calls (sendTransaction ev d t))"
  shows "b_signatures b = orderSignatures t
       \<and> length (b_signatures b) = length (signers (wallet t))
       \<and> (\<forall>i<length (signers (wallet t)).
            \<exists>g. filter (\<lambda>h. signerAddress h = signers (wallet t) ! i) (signatures t) = [g]
               \<and> b_signatures b ! i = signature g)
       \<and> (\<forall>sigs'. mset sigs' = mset (signatures t)
            \<longrightarrow> orderSignatures (t\<lparr>signatures := sigs'\<rparr>) = b_signatures b)"
proof -
  from assms(2) have "pendingSigners t = []"
    by (simp add: transactionAction_def split: if_splits)
  with assms(1) have "set (signers (wallet t)) \<subseteq> set (map signerAddress (signatures t))"
    by (simp only: derivePendingSigners_empty [symmetric])
  then have "distinct (map signerAddress (signatures t))
             \<or> set (signers (wallet t)) \<subseteq> set (map signerAddress (signatures t))"
    by (rule disjI2)
  from ordered_by_signer [OF this assms(3)] show ?thesis .
qed

text \<open>
  The theorem at the example proposal, on which the second signer signed first,
  viewed by its first signer.
\<close>

theorem C1_signatures_in_signer_order_witness:
  "pendingSigners exampleTx = derivePendingSigners (signers (wallet exampleTx)) (signatures exampleTx)
   \<and> transactionAction ''0xaa'' exampleTx = ExecuteTxn
   \<and> SendUserOperation
        \<lparr>b_sender = ''0xf00d'', b_nonce = 0, b_initCode = [96, 128], b_callData = ''0xb61d27f6'',
         b_signatures = [''sigA'', ''sigB''], b_maxFeePerGas = 30, b_maxPriorityFeePerGas = 2\<rparr>
       \<in> set (calls (sendTransaction exampleEnv exampleDb exampleTx))
   \<and> orderSignatures exampleTx = [''sigA'', ''sigB'']
   \<and> orderSignatures (exampleTx\<lparr>signatures := rev (signatures exampleTx)\<rparr>) = [''sigA'', ''sigB'']"
proof -
  let ?b = "\<lparr>b_sender = ''0xf00d'', b_nonce = 0, b_initCode = [96, 128], b_callData = ''0xb61d27f6'',
         b_signatures = [''sigA'', ''sigB''], b_maxFeePerGas = 30, b_maxPriorityFeePerGas = 2\<rparr>"
  have p: "pendingSigners exampleTx
             = derivePendingSigners (signers (wallet exampleTx)) (signatures exampleTx)"
    by (simp add: exampleTx_def exampleWallet_def derivePendingSigners_def)
  have a: "transactionAction ''0xaa'' exampleTx = ExecuteTxn"
    by (simp add: exampleTx_def transactionAction_def truthy_def)
  have c: "SendUserOperation ?b \<in> set (calls (sendTransaction exampleEnv exampleDb exampleTx))"
    by (simp add: exampleTx_def exampleWallet_def exampleOp_def exampleEnv_def
        orderSignatures_def sendTransaction_def failed_def Let_def)
  have m: "mset (rev (signatures exampleTx)) = mset (signatures exampleTx)"
    by simp
  from C1_signatures_in_signer_order [OF p a c] m p a c show ?thesis
    by simp
qed

text \<open>
  Claim C3. On a proposal with at most one signature per signer address on which
  every signer of the wallet has signed, \<open>orderedSignatures\<close> has exactly as many
  elements as the wallet has signers, so no run of \<open>sendTransaction\<close> throws
  "Fewer signatures received than expected". The proof does not need the signer
  list itself to be free of duplicates.
\<close>

theorem C3_executable_has_full_length:
  assumes "distinct (map signerAddress (signatures t))"
      and "set (signers (wallet t)) \<subseteq> set (map signerAddress (signatures t))"
  shows "length (orderSignatures t) = length (signers (wallet t))
         \<and> thrown (sendTransaction ev d t) \<noteq> Some IncompleteQuorum"
proof -
  have "\<forall>s\<in>set (signers (wallet t)). length (signedBy (signatures t) s) = Suc 0"
  proof
    fix s assume "s \<in> set (signers (wallet t))"
    with assms(2) have "s \<in> set (map signerAddress (signatures t))" by blast
    then have "0 < length (signedBy (signatures t) s)"
      by (rule length_signedBy_pos)
    moreover have "length (signedBy (signatures t) s) \<le> Suc 0"
      using assms(1) by (rule length_signedBy_le)
    ultimately show "length (signedBy (signatures t) s) = Suc 0" by arith
  qed
  then have "length (orderSignatures t) = length (signers (wallet t))"
    by (simp add: orderSignatures_concat concat_singletons)
  then show ?thesis
    by (simp add: sendTransaction_not_quorum)
qed

text \<open>The theorem at the example proposal.\<close>

theorem C3_executable_has_full_length_witness:
  "distinct (map signerAddress (signatures exampleTx))
   \<and> set (signers (wallet exampleTx)) \<subseteq> set (map signerAddress (signatures exampleTx))
   \<and> length (orderSignatures exampleTx) = 2
   \<and> thrown (sendTransaction exampleEnv exampleDb exampleTx) \<noteq> Some IncompleteQuorum"
proof -
  have d: "distinct (map signerAddress (signatures exampleTx))"
    by (simp add: exampleTx_def)
  have s: "set (signers (wallet exampleTx)) \<subseteq> set (map signerAddress (signatures exampleTx))"
    by (simp add: exampleTx_def exampleWallet_def)
  have "length (signers (wallet exampleTx)) = 2"
    by (simp add: exampleTx_def exampleWallet_def)
  with C3_executable_has_full_length [OF d s, of exampleEnv exampleDb] d s show ?thesis
    by simp
qed

text \<open>
  Claim C10. The length of \<open>orderedSignatures\<close> is the number of index pairs
  \<open>(i, j)\<close> with \<open>wallet.signers[i] = signatures[j].signerAddress\<close>. A signer listed
  twice makes one signature count twice; and when one address signed twice the
  length equals the signer count, and the run succeeds, although the second signer
  recorded nothing.
\<close>

theorem C10_ordered_length_counts_pairs:
  "length (orderSignatures t)
     = card {(i, j). i < length (signers (wallet t)) \<and> j < length (signatures t)
                     \<and> signers (wallet t) ! i = signerAddress (signatures t ! j)}
   \<and> length (orderSignatures duplicateSignerTx) = 2
   \<and> length (signatures duplicateSignerTx) = 1
   \<and> length (orderSignatures doubleSignedTx) = length (signers (wallet doubleSignedTx))
   \<and> count_list (map signerAddress (signatures doubleSignedTx)) (signers (wallet doubleSignedTx) ! 1) = 0
   \<and> thrown (sendTransaction exampleEnv exampleDb doubleSignedTx) = None"
proof -
  have "length (orderSignatures t)
     = card {(i, j). i < length (signers (wallet t)) \<and> j < length (signatures t)
                     \<and> signers (wallet t) ! i = signerAddress (signatures t ! j)}"
    by (simp only: orderSignatures_concat length_concat_signedBy)
  moreover have "length (orderSignatures duplicateSignerTx) = 2"
    by (simp add: duplicateSignerTx_def exampleTx_def exampleWallet_def orderSignatures_def)
  moreover have "length (signatures duplicateSignerTx) = 1"
    by (simp add: duplicateSignerTx_def exampleTx_def)
  moreover have "length (orderSignatures doubleSignedTx) = length (signers (wallet doubleSignedTx))"
    by (simp add: doubleSignedTx_def exampleTx_def exampleWallet_def orderSignatures_def)
  moreover have "count_list (map signerAddress (signatures doubleSignedTx)) (signers (wallet doubleSignedTx) ! 1) = 0"
    by (simp add: doubleSignedTx_def exampleTx_def exampleWallet_def)
  moreover have "thrown (sendTransaction exampleEnv exampleDb doubleSignedTx) = None"
    by (simp add: doubleSignedTx_def exampleTx_def exampleWallet_def exampleEnv_def
        orderSignatures_def sendTransaction_def failed_def Let_def)
  ultimately show ?thesis by blast
qed

section \<open>The update handler\<close>

lemma prisma_wallet_update_transactions:
  "prisma_wallet_update d i = Inr d1 \<Longrightarrow> transactions d1 = transactions d"
  by (auto simp: prisma_wallet_update_def split: if_splits)

lemma find_row:
  "i \<in> set (map row_id rows) \<Longrightarrow> \<exists>r. find (\<lambda>r. row_id r = i) rows = Some r \<and> row_id r = i"
  by (induction rows) auto


lemma POST_stored:
  assumes "walletId b \<in> set (map wallet_id (wallets d))"
      and "transactionId b \<in> set (map row_id (transactions d))"
  shows "\<exists>r. row_id r = transactionId b
           \<and> fst (POST d (Some b)) = JsonTransaction r
           \<and> (\<forall>h. body_txHash b = Some h \<longrightarrow> row_txHash r = Some h)
           \<and> wallets (snd (POST d (Some b)))
               = map (\<lambda>w. if wallet_id w = walletId b then w\<lparr>isDeployed := True\<rparr> else w) (wallets d)
           \<and> transactions (snd (POST d (Some b)))
               = map (\<lambda>x. if row_id x = transactionId b then r else x) (transactions d)"
proof -
  let ?d1 = "d\<lparr>wallets := map (\<lambda>w. if wallet_id w = walletId b then w\<lparr>isDeployed := True\<rparr> else w)
                              (wallets d)\<rparr>"
  have w: "prisma_wallet_update d (walletId b) = Inr ?d1"
    using assms(1) by (simp add: prisma_wallet_update_def)
  obtain r0 where r0: "find (\<lambda>r. row_id r = transactionId b) (transactions d) = Some r0"
      and id0: "row_id r0 = transactionId b"
    using find_row [OF assms(2)] by blast
  show ?thesis
  proof (cases "body_txHash b")
    case None
    with w r0 id0 show ?thesis
      by (simp add: POST_def prisma_transaction_update_def Let_def)
  next
    case (Some h)
    with w r0 id0 show ?thesis
      by (simp add: POST_def prisma_transaction_update_def Let_def)
  qed
qed

lemma sendTransaction_success:
  "thrown (sendTransaction ev d t) = None
     \<Longrightarrow> \<exists>b req. calls (sendTransaction ev d t)
                   = [SendUserOperation b, UpdateWalletDeployed req (fst (POST d (Some req)))]
           \<and> store (sendTransaction ev d t) = snd (POST d (Some req))
           \<and> walletId req = wallet_id (wallet t)
           \<and> transactionId req = transaction_id t
           \<and> (\<forall>h. body_txHash req = Some h
                  \<longleftrightarrow> wait ev = Inr True \<and> getTransactionReceipt ev = Inr (Some h))"
  by (auto simp: sendTransaction_def failed_def Let_def
           split: option.splits sum.splits if_splits fetch_outcome.splits)

lemma sendTransaction_ignores_txHash:
  "sendTransaction ev d (t\<lparr>txHash := h\<rparr>) = sendTransaction ev d t"
  by (simp add: sendTransaction_def orderSignatures_def Let_def
           split: option.splits sum.splits fetch_outcome.splits)

section \<open>Executable proposals\<close>

lemma count_list_distinct:
  "distinct xs \<Longrightarrow> count_list xs x = 1 \<longleftrightarrow> x \<in> set xs"
  by (induction xs) auto

text \<open>
  Claim C2, as the code has it. On a proposal with no transaction hash recorded
  and at most one signature per signer address, whose \<open>pendingSigners\<close> is the
  signer list minus the signed addresses, the pending list is empty and the card
  offers "Execute Txn" if and only if every signer of the wallet has recorded
  exactly one signature. A recorded signature is one the signing flow stored;
  verifying it is the work of the external verifier.
\<close>

theorem C2_executable_iff_all_signed:
  assumes "pendingSigners t = derivePendingSigners (signers (wallet t)) (signatures t)"
      and "distinct (map signerAddress (signatures t))"
      and "\<not> truthy (txHash t)"
  shows "(pendingSigners t = [] \<and> transactionAction addr t = ExecuteTxn)
         \<longleftrightarrow> (\<forall>s\<in>set (signers (wallet t)). count_list (map signerAddress (signatures t)) s = 1)"
proof -
  have "pendingSigners t = [] \<longleftrightarrow> set (signers (wallet t)) \<subseteq> set (map signerAddress (signatures t))"
    by (simp only: assms(1) derivePendingSigners_empty)
  moreover have "pendingSigners t = [] \<Longrightarrow> transactionAction addr t = ExecuteTxn"
    using assms(3) by (simp add: transactionAction_def)
  ultimately show ?thesis
    using count_list_distinct [OF assms(2)] by blast
qed

text \<open>
  The theorem at the example proposal, viewed by its first signer.
\<close>

theorem C2_executable_iff_all_signed_witness:
  "pendingSigners exampleTx = derivePendingSigners (signers (wallet exampleTx)) (signatures exampleTx)
   \<and> distinct (map signerAddress (signatures exampleTx))
   \<and> \<not> truthy (txHash exampleTx)
   \<and> transactionAction ''0xAA'' exampleTx = ExecuteTxn
   \<and> count_list (map signerAddress (signatures exampleTx)) ''0xaa'' = 1
   \<and> count_list (map signerAddress (signatures exampleTx)) ''0xbb'' = 1"
proof -
  have p: "pendingSigners exampleTx
             = derivePendingSigners (signers (wallet exampleTx)) (signatures exampleTx)"
    by (simp add: exampleTx_def exampleWallet_def derivePendingSigners_def)
  have d: "distinct (map signerAddress (signatures exampleTx))"
    by (simp add: exampleTx_def)
  have h: "\<not> truthy (txHash exampleTx)"
    by (simp add: exampleTx_def truthy_def)
  have e: "pendingSigners exampleTx = []"
    by (simp add: exampleTx_def)
  have s: "signers (wallet exampleTx) = [''0xaa'', ''0xbb'']"
    by (simp add: exampleTx_def exampleWallet_def)
  have a: "transactionAction ''0xAA'' exampleTx = ExecuteTxn"
    by (simp add: exampleTx_def transactionAction_def truthy_def)
  from C2_executable_iff_all_signed [OF p d h, of "''0xAA''"] p d h e s a show ?thesis
    by simp
qed

text \<open>
  The claim as stated fails in both directions. After submission every signer has
  signed exactly once and the pending list is empty, yet the card offers "View on
  Etherscan", not the execute action. And when a signer signed twice the pending
  list is empty and the execute action is offered although that signer has two
  signatures.
\<close>

theorem C2_submitted_counterexample:
  "signers (wallet submittedTx) = [''0xaa'', ''0xbb'']
   \<and> count_list (map signerAddress (signatures submittedTx)) ''0xaa'' = 1
   \<and> count_list (map signerAddress (signatures submittedTx)) ''0xbb'' = 1
   \<and> pendingSigners submittedTx = derivePendingSigners (signers (wallet submittedTx)) (signatures submittedTx)
   \<and> pendingSigners submittedTx = []
   \<and> transactionAction ''0xaa'' submittedTx = ViewOnEtherscan
   \<and> pendingSigners overSignedTx = derivePendingSigners (signers (wallet overSignedTx)) (signatures overSignedTx)
   \<and> pendingSigners overSignedTx = []
   \<and> transactionAction ''0xaa'' overSignedTx = ExecuteTxn
   \<and> signers (wallet overSignedTx) = [''0xaa'', ''0xbb'']
   \<and> count_list (map signerAddress (signatures overSignedTx)) ''0xaa'' = 2"
  by (simp add: submittedTx_def overSignedTx_def exampleTx_def exampleWallet_def
      derivePendingSigners_def transactionAction_def truthy_def)

section \<open>The quorum check\<close>

text \<open>
  Claim C4. Once the bundler client is initialised, a proposal whose
  \<open>orderedSignatures\<close> differs in length from \<open>wallet.signers\<close> makes the run throw
  "Fewer signatures received than expected"; by then nothing was sent to the
  bundler or to the update endpoint, and the database is as it was.
\<close>

theorem C4_incomplete_quorum_fails_first:
  assumes "clientInit ev = None"
      and "length (orderSignatures t) \<noteq> length (signers (wallet t))"
  shows "sendTransaction ev d t = \<lparr>thrown = Some IncompleteQuorum, store = d, calls = []\<rparr>
         \<and> message IncompleteQuorum = ''Fewer signatures received than expected''"
  using assms by (simp add: sendTransaction_quorum)

text \<open>
  The theorem at the example proposal before its first signer signed.
\<close>

theorem C4_incomplete_quorum_fails_first_witness:
  "clientInit exampleEnv = None
   \<and> length (orderSignatures halfSignedTx) = 1
   \<and> length (signers (wallet halfSignedTx)) = 2
   \<and> sendTransaction exampleEnv exampleDb halfSignedTx
        = \<lparr>thrown = Some IncompleteQuorum, store = exampleDb, calls = []\<rparr>"
proof -
  have i: "clientInit exampleEnv = None"
    by (simp add: exampleEnv_def)
  have o: "length (orderSignatures halfSignedTx) = 1"
    by (simp add: halfSignedTx_def exampleTx_def exampleWallet_def orderSignatures_def)
  have n: "length (signers (wallet halfSignedTx)) = 2"
    by (simp add: halfSignedTx_def exampleTx_def exampleWallet_def)
  have "length (orderSignatures halfSignedTx) \<noteq> length (signers (wallet halfSignedTx))"
    using o n by simp
  from C4_incomplete_quorum_fails_first [OF i this, of exampleDb] i o n show ?thesis
    by simp
qed

section \<open>Submitting twice\<close>

text \<open>
  Claim C5, as the code has it. A card whose proposal has a non-empty \<open>txHash\<close>
  offers "View on Etherscan" and so never the execute action. That is the only
  guard: \<open>sendTransaction\<close> does not read the proposal's \<open>txHash\<close>, and the update
  handler, given the ids of stored rows and a hash, answers with the updated row
  and leaves that hash on the proposal whatever was stored before.
\<close>

theorem C5_resubmission_overwrites:
  "(truthy (txHash t) \<longrightarrow> transactionAction addr t = ViewOnEtherscan)
   \<and> sendTransaction ev d (t\<lparr>txHash := h0\<rparr>) = sendTransaction ev d t
   \<and> (walletId b \<in> set (map wallet_id (wallets d))
        \<and> transactionId b \<in> set (map row_id (transactions d))
        \<and> body_txHash b = Some h
      \<longrightarrow> fst (POST d (Some b)) = JsonTransaction \<lparr>row_id = transactionId b, row_txHash = Some h\<rparr>
          \<and> (\<forall>x\<in>set (transactions (snd (POST d (Some b)))).
                row_id x = transactionId b \<longrightarrow> row_txHash x = Some h))"
proof -
  have a: "truthy (txHash t) \<longrightarrow> transactionAction addr t = ViewOnEtherscan"
    by (simp add: transactionAction_def)
  have c: "fst (POST d (Some b)) = JsonTransaction \<lparr>row_id = transactionId b, row_txHash = Some h\<rparr>
          \<and> (\<forall>x\<in>set (transactions (snd (POST d (Some b)))).
                row_id x = transactionId b \<longrightarrow> row_txHash x = Some h)"
    if w: "walletId b \<in> set (map wallet_id (wallets d))"
      and x: "transactionId b \<in> set (map row_id (transactions d))"
      and h: "body_txHash b = Some h"
  proof -
    from POST_stored [OF w x] obtain r where r: "row_id r = transactionId b"
      and f: "fst (POST d (Some b)) = JsonTransaction r"
      and v: "\<forall>h. body_txHash b = Some h \<longrightarrow> row_txHash r = Some h"
      and t: "transactions (snd (POST d (Some b)))
               = map (\<lambda>x. if row_id x = transactionId b then r else x) (transactions d)"
      by blast
    from v h have "row_txHash r = Some h" by simp
    with r have "r = \<lparr>row_id = transactionId b, row_txHash = Some h\<rparr>" by simp
    with f t show ?thesis by auto
  qed
  from a c sendTransaction_ignores_txHash show ?thesis by blast
qed

text \<open>
  The theorem at the submitted example proposal and a second hash.
\<close>

theorem C5_resubmission_overwrites_witness:
  "truthy (txHash submittedTx)
   \<and> transactionAction ''0xaa'' submittedTx = ViewOnEtherscan
   \<and> sendTransaction exampleEnv exampleDb submittedTx = sendTransaction exampleEnv exampleDb exampleTx
   \<and> fst (POST exampleDb (Some \<lparr>walletId = 1, transactionId = 7, body_txHash = Some ''0xbeef''\<rparr>))
       = JsonTransaction \<lparr>row_id = 7, row_txHash = Some ''0xbeef''\<rparr>"
proof -
  have t: "truthy (txHash submittedTx)"
    by (simp add: submittedTx_def truthy_def)
  have s: "submittedTx = exampleTx\<lparr>txHash := Some ''0xfeed''\<rparr>"
    by (simp add: submittedTx_def)
  have w: "walletId \<lparr>walletId = 1, transactionId = 7, body_txHash = Some ''0xbeef''\<rparr>
             \<in> set (map wallet_id (wallets exampleDb))"
    by (simp add: exampleDb_def exampleWallet_def)
  have x: "transactionId \<lparr>walletId = 1, transactionId = 7, body_txHash = Some ''0xbeef''\<rparr>
             \<in> set (map row_id (transactions exampleDb))"
    by (simp add: exampleDb_def)
  from C5_resubmission_overwrites [of submittedTx "''0xaa''" exampleEnv exampleDb "Some ''0xfeed''"
      "\<lparr>walletId = 1, transactionId = 7, body_txHash = Some ''0xbeef''\<rparr>" "''0xbeef''"]
    C5_resubmission_overwrites [of exampleTx "''0xaa''" exampleEnv exampleDb "Some ''0xfeed''"
      "\<lparr>walletId = 1, transactionId = 7, body_txHash = Some ''0xbeef''\<rparr>" "''0xbeef''"]
    t s w x
  show ?thesis by simp
qed

text \<open>
  Submitting the example proposal twice, the bundler answering with a different
  hash the second time: both runs succeed, and the second hash replaces the first.
  The handler answers the second request with the updated row, not with an error.
\<close>

theorem C5_second_hash_counterexample:
  "thrown (sendTransaction exampleEnv exampleDb exampleTx) = None
   \<and> transactions (store (sendTransaction exampleEnv exampleDb exampleTx))
       = [\<lparr>row_id = 7, row_txHash = Some ''0xfeed''\<rparr>]
   \<and> thrown (sendTransaction (exampleEnv\<lparr>getTransactionReceipt := Inr (Some ''0xbeef'')\<rparr>)
               (store (sendTransaction exampleEnv exampleDb exampleTx)) exampleTx) = None
   \<and> transactions (store (sendTransaction (exampleEnv\<lparr>getTransactionReceipt := Inr (Some ''0xbeef'')\<rparr>)
               (store (sendTransaction exampleEnv exampleDb exampleTx)) exampleTx))
       = [\<lparr>row_id = 7, row_txHash = Some ''0xbeef''\<rparr>]
   \<and> fst (POST (store (sendTransaction exampleEnv exampleDb exampleTx))
              (Some \<lparr>walletId = 1, transactionId = 7, body_txHash = Some ''0xbeef''\<rparr>))
       = JsonTransaction \<lparr>row_id = 7, row_txHash = Some ''0xbeef''\<rparr>"
  by (simp add: exampleTx_def exampleWallet_def exampleOp_def exampleEnv_def exampleDb_def
      orderSignatures_def sendTransaction_def failed_def Let_def POST_def
      prisma_wallet_update_def prisma_transaction_update_def)

section \<open>Failure and persistence\<close>

lemma marked_wallet_present:
  "i \<in> set (map wallet_id ws)
     \<Longrightarrow> \<exists>w\<in>set (map (\<lambda>w. if wallet_id w = i then w\<lparr>isDeployed := True\<rparr> else w) ws).
           wallet_id w = i"
  by (induction ws) auto

lemma marked_wallet_deployed:
  "\<forall>w\<in>set (map (\<lambda>w. if wallet_id w = i then w\<lparr>isDeployed := True\<rparr> else w) ws).
      wallet_id w = i \<longrightarrow> isDeployed w"
proof
  fix w assume "w \<in> set (map (\<lambda>w. if wallet_id w = i then w\<lparr>isDeployed := True\<rparr> else w) ws)"
  then obtain v where w: "w = (if wallet_id v = i then v\<lparr>isDeployed := True\<rparr> else v)"
    by (auto simp only: set_map)
  show "wallet_id w = i \<longrightarrow> isDeployed w"
    by (cases "wallet_id v = i") (simp_all add: w)
qed








lemma POST_answered:
  "fst (POST d (Some b)) = JsonTransaction row
     \<Longrightarrow> walletId b \<in> set (map wallet_id (wallets d))
         \<and> transactionId b \<in> set (map row_id (transactions d))"
proof -
  assume a: "fst (POST d (Some b)) = JsonTransaction row"
  then obtain d1 where w: "prisma_wallet_update d (walletId b) = Inr d1"
    by (auto simp: POST_def split: sum.splits)
  then have m: "walletId b \<in> set (map wallet_id (wallets d))"
    by (auto simp: prisma_wallet_update_def split: if_splits)
  from a w have "find (\<lambda>r. row_id r = transactionId b) (transactions d1) \<noteq> None"
    by (auto simp: POST_def prisma_transaction_update_def split: sum.splits option.splits)
  then have "find (\<lambda>r. row_id r = transactionId b) (transactions d) \<noteq> None"
    using prisma_wallet_update_transactions [OF w] by simp
  then obtain x where "x \<in> set (transactions d)" and "row_id x = transactionId b"
    by (auto simp: find_None_iff)
  then have "transactionId b \<in> set (map row_id (transactions d))"
    by force
  with m show ?thesis by simp
qed

lemma replaced_row_present:
  "i \<in> set (map row_id rows) \<Longrightarrow> r \<in> set (map (\<lambda>x. if row_id x = i then r else x) rows)"
  by (induction rows) auto

lemma replaced_row_only:
  "\<forall>x\<in>set (map (\<lambda>x. if row_id x = i then r else x) rows). row_id x = i \<longrightarrow> x = r"
  by (induction rows) auto

lemma answered_submission_persisted:
  assumes "thrown (sendTransaction ev d t) = None"
      and "UpdateWalletDeployed req (JsonTransaction row) \<in> set (calls (sendTransaction ev d t))"
  shows "(\<exists>b. calls (sendTransaction ev d t)
                = [SendUserOperation b, UpdateWalletDeployed req (JsonTransaction row)]
            \<and> b_initCode b = (if isDeployed (wallet t) then [] else initCode (userOp t)))
       \<and> walletId req = wallet_id (wallet t)
       \<and> transactionId req = transaction_id t
       \<and> (\<forall>h. body_txHash req = Some h
              \<longleftrightarrow> wait ev = Inr True \<and> getTransactionReceipt ev = Inr (Some h))
       \<and> (\<forall>h. body_txHash req = Some h \<longrightarrow> row_txHash row = Some h)
       \<and> row_id row = transaction_id t
       \<and> row \<in> set (transactions (store (sendTransaction ev d t)))
       \<and> (\<forall>x\<in>set (transactions (store (sendTransaction ev d t))).
              row_id x = transaction_id t \<longrightarrow> x = row)
       \<and> (\<exists>w\<in>set (wallets (store (sendTransaction ev d t))). wallet_id w = wallet_id (wallet t))
       \<and> (\<forall>w\<in>set (wallets (store (sendTransaction ev d t))).
              wallet_id w = wallet_id (wallet t) \<longrightarrow> isDeployed w)"
proof -
  let ?r = "sendTransaction ev d t"
  from sendTransaction_success [OF assms(1)] obtain b req'
    where c': "calls ?r = [SendUserOperation b, UpdateWalletDeployed req' (fst (POST d (Some req')))]"
      and st': "store ?r = snd (POST d (Some req'))"
      and w': "walletId req' = wallet_id (wallet t)"
      and x': "transactionId req' = transaction_id t"
      and h': "\<forall>h. body_txHash req' = Some h
                 \<longleftrightarrow> wait ev = Inr True \<and> getTransactionReceipt ev = Inr (Some h)"
    by blast
  from assms(2) c' have eq: "req' = req" and f: "fst (POST d (Some req)) = JsonTransaction row"
    by simp_all
  note c = c' [unfolded eq f] and st = st' [unfolded eq] and w = w' [unfolded eq]
    and x = x' [unfolded eq] and h = h' [unfolded eq]
  have "SendUserOperation b \<in> set (calls ?r)"
    by (simp add: c)
  from submitted_builder [OF this]
  have i: "b_initCode b = (if isDeployed (wallet t) then [] else initCode (userOp t))"
    by simp
  from POST_answered [OF f]
  have mw: "walletId req \<in> set (map wallet_id (wallets d))"
    and mx: "transactionId req \<in> set (map row_id (transactions d))"
    by simp_all
  from POST_stored [OF mw mx] obtain row'
    where f': "fst (POST d (Some req)) = JsonTransaction row'"
      and rid': "row_id row' = transactionId req"
      and rh': "\<forall>h. body_txHash req = Some h \<longrightarrow> row_txHash row' = Some h"
      and ws: "wallets (snd (POST d (Some req)))
               = map (\<lambda>w. if wallet_id w = walletId req then w\<lparr>isDeployed := True\<rparr> else w) (wallets d)"
      and ts': "transactions (snd (POST d (Some req)))
               = map (\<lambda>x. if row_id x = transactionId req then row' else x) (transactions d)"
    by blast
  from f f' have same: "row' = row" by simp
  note rid = rid' [unfolded same] and rh = rh' [unfolded same] and ts = ts' [unfolded same]
  have 1: "\<exists>b. calls ?r = [SendUserOperation b, UpdateWalletDeployed req (JsonTransaction row)]
            \<and> b_initCode b = (if isDeployed (wallet t) then [] else initCode (userOp t))"
    using c i by blast
  have 2: "row \<in> set (transactions (store ?r))"
    unfolding st ts by (rule replaced_row_present [OF mx])
  have 3: "\<forall>x\<in>set (transactions (store ?r)). row_id x = transaction_id t \<longrightarrow> x = row"
    unfolding st ts x by (rule replaced_row_only)
  have 4: "\<exists>w\<in>set (wallets (store ?r)). wallet_id w = wallet_id (wallet t)"
    unfolding st ws using mw unfolding w by (rule marked_wallet_present)
  have 5: "\<forall>w\<in>set (wallets (store ?r)). wallet_id w = wallet_id (wallet t) \<longrightarrow> isDeployed w"
    unfolding st ws w by (rule marked_wallet_deployed)
  have rid2: "row_id row = transaction_id t"
    unfolding rid by (rule x)
  show ?thesis
    by (intro conjI 1 w x h rh rid2 2 3 4 5)
qed

lemma sendTransaction_ignores_response:
  "thrown (sendTransaction ev d t) = thrown (sendTransaction ev d' t)"
  by (simp add: sendTransaction_def failed_def Let_def
           split: option.splits sum.splits fetch_outcome.splits)

text \<open>
  Claim C7 at a proposal whose row is no longer stored. The run receives the
  receipt's hash and sends it with the update request; the handler answers with an
  error; the run, which never reads the answer, reaches "Transaction sent
  successfully"; and afterwards no stored proposal holds the hash.
\<close>

theorem C7_success_alert_without_persistence:
  "thrown (sendTransaction exampleEnv exampleDb orphanTx) = None
   \<and> calls (sendTransaction exampleEnv exampleDb orphanTx)
       = [SendUserOperation
            \<lparr>b_sender = ''0xf00d'', b_nonce = 0, b_initCode = [96, 128], b_callData = ''0xb61d27f6'',
             b_signatures = [''sigA'', ''sigB''], b_maxFeePerGas = 30, b_maxPriorityFeePerGas = 2\<rparr>,
          UpdateWalletDeployed \<lparr>walletId = 1, transactionId = 8, body_txHash = Some ''0xfeed''\<rparr>
            (JsonError RecordNotFound)]
   \<and> transactions (store (sendTransaction exampleEnv exampleDb orphanTx))
       = [\<lparr>row_id = 7, row_txHash = None\<rparr>]"
  by (simp add: orphanTx_def exampleTx_def exampleWallet_def exampleOp_def exampleEnv_def
      exampleDb_def orderSignatures_def sendTransaction_def failed_def Let_def POST_def
      prisma_wallet_update_def prisma_transaction_update_def)

section \<open>Wallet lookup\<close>

lemma find_address:
  "a \<in> set (map address ws) \<Longrightarrow> \<exists>w\<in>set ws. address w = a \<and> find (\<lambda>w. address w = a) ws = Some w"
  by (induction ws) auto

text \<open>
  Claim C8. The handler answers a missing or empty \<open>walletAddress\<close> with the error
  "Missing or invalid address", an address \<open>isAddress\<close> rejects with "Invalid
  Ethereum address", and a rejected database call with that call's error. For an
  address \<open>isAddress\<close> accepts it answers with what \<open>findFirst\<close> returns: a stored
  wallet with that address when there is one, \<open>null\<close> when there is none. Every
  error raised inside the \<open>try\<close> block becomes the \<open>{ error }\<close> response.
\<close>

theorem C8_wallet_lookup_answers:
  "(walletAddress = None \<or> walletAddress = Some [] 
      \<longrightarrow> GET isAddress query walletAddress = JsonError MissingAddress)
   \<and> (a \<noteq> [] \<and> \<not> isAddress a \<longrightarrow> GET isAddress query (Some a) = JsonError InvalidAddress)
   \<and> (a \<noteq> [] \<and> isAddress a \<and> query a = Inl e \<longrightarrow> GET isAddress query (Some a) = JsonError e)
   \<and> (a \<noteq> [] \<and> isAddress a \<and> query a = Inr (prisma_wallet_findFirst d a)
      \<longrightarrow> GET isAddress query (Some a) = JsonWallet (prisma_wallet_findFirst d a)
          \<and> (a \<in> set (map address (wallets d))
               \<longrightarrow> (\<exists>w\<in>set (wallets d). address w = a \<and> prisma_wallet_findFirst d a = Some w))
          \<and> (a \<notin> set (map address (wallets d)) \<longrightarrow> prisma_wallet_findFirst d a = None))
   \<and> (\<forall>x. GET_try isAddress query walletAddress = Inl x
          \<longrightarrow> GET isAddress query walletAddress = JsonError x)"
proof -
  have 1: "walletAddress = None \<or> walletAddress = Some []
             \<longrightarrow> GET isAddress query walletAddress = JsonError MissingAddress"
    by (auto simp: GET_def GET_try_def)
  have 2: "a \<noteq> [] \<and> \<not> isAddress a \<longrightarrow> GET isAddress query (Some a) = JsonError InvalidAddress"
    by (simp add: GET_def GET_try_def)
  have 3: "a \<noteq> [] \<and> isAddress a \<and> query a = Inl e \<longrightarrow> GET isAddress query (Some a) = JsonError e"
    by (simp add: GET_def GET_try_def)
  have 4: "a \<noteq> [] \<and> isAddress a \<and> query a = Inr (prisma_wallet_findFirst d a)
             \<longrightarrow> GET isAddress query (Some a) = JsonWallet (prisma_wallet_findFirst d a)"
    by (simp add: GET_def GET_try_def)
  have 5: "a \<in> set (map address (wallets d))
             \<longrightarrow> (\<exists>w\<in>set (wallets d). address w = a \<and> prisma_wallet_findFirst d a = Some w)"
    using find_address [of a "wallets d"] by (simp add: prisma_wallet_findFirst_def)
  have 6: "a \<notin> set (map address (wallets d)) \<longrightarrow> prisma_wallet_findFirst d a = None"
    by (auto simp: prisma_wallet_findFirst_def find_None_iff)
  have 7: "\<forall>x. GET_try isAddress query walletAddress = Inl x
             \<longrightarrow> GET isAddress query walletAddress = JsonError x"
    by (simp add: GET_def)
  from 1 2 3 4 5 6 7 show ?thesis by blast
qed

text \<open>
  The theorem at the example database, with a predicate that accepts the strings
  starting with \<open>0x\<close>, and at a database call that rejects.
\<close>

theorem C8_wallet_lookup_answers_witness:
  "GET (\<lambda>a. take 2 a = ''0x'') (\<lambda>a. Inr (prisma_wallet_findFirst exampleDb a)) None
     = JsonError MissingAddress
   \<and> GET (\<lambda>a. take 2 a = ''0x'') (\<lambda>a. Inr (prisma_wallet_findFirst exampleDb a)) (Some ''f00d'')
     = JsonError InvalidAddress
   \<and> GET (\<lambda>a. take 2 a = ''0x'') (\<lambda>a. Inl (QueryError ''connection refused'')) (Some ''0xf00d'')
     = JsonError (QueryError ''connection refused'')
   \<and> GET (\<lambda>a. take 2 a = ''0x'') (\<lambda>a. Inr (prisma_wallet_findFirst exampleDb a)) (Some ''0xf00d'')
     = JsonWallet (Some exampleWallet)
   \<and> GET (\<lambda>a. take 2 a = ''0x'') (\<lambda>a. Inr (prisma_wallet_findFirst exampleDb a)) (Some ''0xdead'')
     = JsonWallet None"
proof -
  let ?isAddress = "\<lambda>a. take 2 a = ''0x''"
  let ?query = "\<lambda>a. Inr (prisma_wallet_findFirst exampleDb a) :: error + Wallet option"
  let ?down = "\<lambda>a::string. Inl (QueryError ''connection refused'') :: error + Wallet option"
  have v: "?isAddress ''0xf00d''" "?isAddress ''0xdead''" "\<not> ?isAddress ''f00d''"
    by simp_all
  have s: "''0xf00d'' \<in> set (map address (wallets exampleDb))"
    "''0xdead'' \<notin> set (map address (wallets exampleDb))"
    "wallets exampleDb = [exampleWallet]"
    by (simp_all add: exampleDb_def exampleWallet_def)
  from C8_wallet_lookup_answers [of None ?isAddress ?query "''f00d''" "QueryError ''connection refused''" exampleDb]
    C8_wallet_lookup_answers [of None ?isAddress ?down "''0xf00d''" "QueryError ''connection refused''" exampleDb]
    C8_wallet_lookup_answers [of None ?isAddress ?query "''0xf00d''" "QueryError ''connection refused''" exampleDb]
    C8_wallet_lookup_answers [of None ?isAddress ?query "''0xdead''" "QueryError ''connection refused''" exampleDb]
    v s
  show ?thesis by auto
qed

section \<open>Letter case\<close>

lemma same_order_without:
  assumes "signerAddress g \<notin> set ss"
  shows "map (signedBy (filter (\<lambda>h. h \<noteq> g) sigs)) ss = map (signedBy sigs) ss"
proof (rule map_cong [OF refl])
  fix s assume "s \<in> set ss"
  with assms have "\<And>h. signerAddress h = s \<Longrightarrow> h \<noteq> g" by auto
  then have "filter (\<lambda>h. signerAddress h = s) (filter (\<lambda>h. h \<noteq> g) sigs)
               = filter (\<lambda>h. signerAddress h = s) sigs"
    by (auto simp: filter_filter intro: filter_cong)
  then show "signedBy (filter (\<lambda>h. h \<noteq> g) sigs) s = signedBy sigs s"
    by (simp add: signedBy_def)
qed

text \<open>
  Claim C9, as the code has it. Take a proposal whose signer entries are distinct
  and whose signatures come from distinct signers, both up to letter case. If a
  recorded signature's address differs from a signer entry only in letter case,
  then the address matches no entry, the signature contributes nothing to
  \<open>orderedSignatures\<close>, that signer's place stays empty, \<open>orderedSignatures\<close> is
  shorter than the signer list, and a run with an initialised client throws
  "Fewer signatures received than expected". The card offers "Sign Txn" exactly
  when no hash is recorded, some signer is pending, and the lower-cased connected
  address is among the pending signers.
\<close>

theorem C9_case_sensitive_ordering:
  assumes "distinct (map toLowerCase (signers (wallet t)))"
      and "distinct (map (\<lambda>h. toLowerCase (signerAddress h)) (signatures t))"
      and "g \<in> set (signatures t)" and "s \<in> set (signers (wallet t))"
      and "signerAddress g \<noteq> s"
      and "toLowerCase (signerAddress g) = toLowerCase s"
  shows "signerAddress g \<notin> set (signers (wallet t))
       \<and> orderSignatures (t\<lparr>signatures := filter (\<lambda>h. h \<noteq> g) (signatures t)\<rparr>) = orderSignatures t
       \<and> signedBy (signatures t) s = []
       \<and> length (orderSignatures t) < length (signers (wallet t))
       \<and> (clientInit ev = None
            \<longrightarrow> sendTransaction ev d t = \<lparr>thrown = Some IncompleteQuorum, store = d, calls = []\<rparr>)
       \<and> (transactionAction addr t = SignTxn
            \<longleftrightarrow> \<not> truthy (txHash t) \<and> pendingSigners t \<noteq> []
                \<and> toLowerCase addr \<in> set (pendingSigners t))"
proof -
  let ?ss = "signers (wallet t)" and ?sigs = "signatures t"
  have inj_s: "inj_on toLowerCase (set ?ss)"
    using assms(1) by (simp add: distinct_map)
  have inj_g: "inj_on (\<lambda>h. toLowerCase (signerAddress h)) (set ?sigs)"
    using assms(2) by (simp add: distinct_map)
  have a: "signerAddress g \<notin> set ?ss"
  proof
    assume "signerAddress g \<in> set ?ss"
    with inj_s assms(4,6) have "signerAddress g = s" by (auto dest: inj_onD)
    with assms(5) show False by simp
  qed
  have b: "orderSignatures (t\<lparr>signatures := filter (\<lambda>h. h \<noteq> g) ?sigs\<rparr>) = orderSignatures t"
    by (simp add: orderSignatures_concat same_order_without [OF a])
  have c: "signedBy ?sigs s = []"
  proof -
    have "signerAddress h \<noteq> s" if "h \<in> set ?sigs" for h
    proof
      assume e: "signerAddress h = s"
      with assms(6) have "toLowerCase (signerAddress h) = toLowerCase (signerAddress g)" by simp
      with inj_g that assms(3) have "h = g" by (auto dest: inj_onD)
      with e assms(5) show False by simp
    qed
    then show ?thesis by (simp add: signedBy_def filter_empty_conv)
  qed
  have "distinct (map signerAddress ?sigs)"
  proof -
    have "map (\<lambda>h. toLowerCase (signerAddress h)) ?sigs = map toLowerCase (map signerAddress ?sigs)"
      by simp
    with assms(2) show ?thesis by (simp only: distinct_map)
  qed
  then have "\<forall>x\<in>set ?ss. length (signedBy ?sigs x) \<le> Suc 0"
    by (simp add: length_signedBy_le)
  from length_concat_missing [OF this assms(4) c]
  have l: "length (orderSignatures t) < length ?ss"
    by (simp add: orderSignatures_concat)
  then have q: "clientInit ev = None
            \<longrightarrow> sendTransaction ev d t = \<lparr>thrown = Some IncompleteQuorum, store = d, calls = []\<rparr>"
    by (simp add: sendTransaction_quorum)
  have e: "transactionAction addr t = SignTxn
            \<longleftrightarrow> \<not> truthy (txHash t) \<and> pendingSigners t \<noteq> []
                \<and> toLowerCase addr \<in> set (pendingSigners t)"
    by (simp add: transactionAction_def)
  from a b c l q e show ?thesis by blast
qed

text \<open>
  The theorem at a proposal whose first signer is stored as \<open>0xab\<close> and signed as
  \<open>0xAB\<close>.
\<close>

theorem C9_case_sensitive_ordering_witness:
  "distinct (map toLowerCase (signers (wallet mixedCaseTx)))
   \<and> distinct (map (\<lambda>h. toLowerCase (signerAddress h)) (signatures mixedCaseTx))
   \<and> \<lparr>signerAddress = ''0xAB'', signature = ''sigA''\<rparr> \<in> set (signatures mixedCaseTx)
   \<and> ''0xab'' \<in> set (signers (wallet mixedCaseTx))
   \<and> toLowerCase ''0xAB'' = toLowerCase ''0xab''
   \<and> orderSignatures mixedCaseTx = [''sigB'']
   \<and> length (orderSignatures mixedCaseTx) < length (signers (wallet mixedCaseTx))
   \<and> sendTransaction exampleEnv exampleDb mixedCaseTx
       = \<lparr>thrown = Some IncompleteQuorum, store = exampleDb, calls = []\<rparr>"
proof -
  let ?g = "\<lparr>signerAddress = ''0xAB'', signature = ''sigA''\<rparr>"
  have 1: "distinct (map toLowerCase (signers (wallet mixedCaseTx)))"
    by (simp add: mixedCaseTx_def exampleTx_def exampleWallet_def toLowerCase_def lowerChar_def)
  have 2: "distinct (map (\<lambda>h. toLowerCase (signerAddress h)) (signatures mixedCaseTx))"
    by (simp add: mixedCaseTx_def exampleTx_def toLowerCase_def lowerChar_def)
  have 3: "?g \<in> set (signatures mixedCaseTx)"
    by (simp add: mixedCaseTx_def exampleTx_def)
  have 4: "''0xab'' \<in> set (signers (wallet mixedCaseTx))"
    by (simp add: mixedCaseTx_def exampleTx_def exampleWallet_def)
  have 5: "signerAddress ?g \<noteq> ''0xab''"
    by simp
  have 6: "toLowerCase (signerAddress ?g) = toLowerCase ''0xab''"
    by (simp add: toLowerCase_def lowerChar_def)
  have 7: "orderSignatures (mixedCaseTx\<lparr>signatures := filter (\<lambda>h. h \<noteq> ?g) (signatures mixedCaseTx)\<rparr>)
             = [''sigB'']"
    by (simp add: mixedCaseTx_def exampleTx_def exampleWallet_def orderSignatures_def)
  have 8: "clientInit exampleEnv = None"
    by (simp add: exampleEnv_def)
  from C9_case_sensitive_ordering [OF 1 2 3 4 5 6, of exampleEnv exampleDb "''0xAB''"] 1 2 3 4 6 7 8
  show ?thesis by simp
qed

text \<open>
  Without the one-signature-per-signer condition the claim fails: when the signer
  stored as \<open>0xab\<close> signed under both \<open>0xAB\<close> and \<open>0xab\<close>, the first signature is
  left out, yet the length check passes and the run succeeds.
\<close>

theorem C9_both_spellings_counterexample:
  "signers (wallet bothSpellingsTx) = [''0xab'']
   \<and> map signerAddress (signatures bothSpellingsTx) = [''0xAB'', ''0xab'']
   \<and> toLowerCase ''0xAB'' = toLowerCase ''0xab''
   \<and> orderSignatures bothSpellingsTx = [''sig2'']
   \<and> length (orderSignatures bothSpellingsTx) = length (signers (wallet bothSpellingsTx))
   \<and> thrown (sendTransaction exampleEnv exampleDb bothSpellingsTx) = None"
  by (simp add: bothSpellingsTx_def exampleTx_def exampleWallet_def exampleEnv_def
      toLowerCase_def lowerChar_def orderSignatures_def sendTransaction_def failed_def Let_def)

end
